theory Spec2Isabelle
  imports Complex_Main "HOL-Library.Sublist"
begin

section \<open>Input events and exceptions\<close>

text \<open>
  The two programs, \<^verbatim>\<open>mouse-xcount.py\<close> (the scalar variant) and \<^verbatim>\<open>mousetester.py\<close>
  (the path variant), read events of the \<^verbatim>\<open>evdev\<close> library. An event carries a type, a
  code and a value (Python integers, unbounded) and \<^verbatim>\<open>event.timestamp()\<close> gives its time as
  a float, read here as the real number it denotes. The three event codes the programs
  compare with are those of \<^verbatim>\<open>evdev.ecodes\<close>.
\<close>

definition EV_REL :: nat where "EV_REL = 2"
definition REL_X :: nat where "REL_X = 0"
definition REL_Y :: nat where "REL_Y = 1"

type_synonym timestamp = real

record input_event =
  ev_type :: nat
  ev_code :: nat
  ev_value :: int
  ev_timestamp :: timestamp

text \<open>
  The exception classes the \<^verbatim>\<open>except\<close> clauses of the programs tell apart. \<open>OSError\<close> stands
  for every other subclass of \<^verbatim>\<open>OSError\<close> (of which \<^verbatim>\<open>IOError\<close> is an alias), \<open>Exception\<close>
  for every other subclass of \<^verbatim>\<open>Exception\<close>, \<open>BaseException\<close> for what is outside
  \<^verbatim>\<open>Exception\<close>. An exception is its class and its \<^verbatim>\<open>str(e)\<close>.
\<close>

datatype exn_class = FileNotFoundError | PermissionError | OSError | Exception | BaseException

datatype py_exn = Raise exn_class string

fun class_of :: "py_exn \<Rightarrow> exn_class" where
  "class_of (Raise c s) = c"

fun str :: "py_exn \<Rightarrow> string" where
  "str (Raise c s) = s"

fun is_FileNotFoundError :: "exn_class \<Rightarrow> bool" where
  "is_FileNotFoundError FileNotFoundError = True"
| "is_FileNotFoundError _ = False"

fun is_OSError :: "exn_class \<Rightarrow> bool" where
  "is_OSError FileNotFoundError = True"
| "is_OSError PermissionError = True"
| "is_OSError OSError = True"
| "is_OSError _ = False"

fun is_Exception :: "exn_class \<Rightarrow> bool" where
  "is_Exception BaseException = False"
| "is_Exception _ = True"

section \<open>The tracker and its threads\<close>

text \<open>
  \<^verbatim>\<open>MouseTracker\<close> has the fields \<^verbatim>\<open>_tracking_thread\<close>, \<^verbatim>\<open>_is_running\<close> and the accumulated
  result: \<^verbatim>\<open>_total_x_movement\<close> in the scalar variant, \<^verbatim>\<open>path_data\<close>, \<^verbatim>\<open>_current_x\<close> and
  \<^verbatim>\<open>_current_y\<close> in the path variant. Both files have the same \<^verbatim>\<open>start_tracking\<close>,
  \<^verbatim>\<open>stop_tracking\<close> and the same frame of \<^verbatim>\<open>_event_loop\<close>; the model is written once, over
  the type \<open>'a\<close> of the accumulated result, and a \<open>variant\<close> gives what differs.

  The loop runs in a thread of its own. The world holds, beside the tracker's fields, the
  control point of every thread that \<^verbatim>\<open>start_tracking\<close> has spawned (a thread is named by
  its index), the calls made on the device and the lines printed.
\<close>

datatype pc =
    At_grab
  | In_loop
  | At_finally "py_exn option"
  | Exited "py_exn option"

datatype dev_call = Grab | Ungrab

datatype line = Stdout string | Stderr string

record 'a world =
  tracking_thread :: "nat option"
  is_running :: bool
  accumulated :: 'a
  threads :: "pc list"
  device_calls :: "(nat \<times> dev_call) list"
  console :: "line list"

record 'a variant =
  initial :: 'a
  grabbed_message :: string
  on_grabbed :: "timestamp \<Rightarrow> 'a \<Rightarrow> 'a"
  on_event :: "input_event \<Rightarrow> 'a \<Rightarrow> 'a"

text \<open>
  \<^verbatim>\<open>__init__\<close>, after the device has been opened: no thread, the flag down, the accumulated
  result at its initial value.
\<close>

definition init :: "'a variant \<Rightarrow> 'a world" where
  "init V = \<lparr> tracking_thread = None, is_running = False, accumulated = initial V,
              threads = [], device_calls = [], console = [] \<rparr>"

subsection \<open>The event loop\<close>

text \<open>
  What the world offers a loop thread at its next step: the outcome of \<^verbatim>\<open>grab()\<close> (with,
  when it returns, the value \<^verbatim>\<open>time.monotonic()\<close> has right after), what \<^verbatim>\<open>read_loop()\<close>
  does next, and the outcome of \<^verbatim>\<open>ungrab()\<close>.
\<close>

datatype loop_input =
    Grab_returns timestamp
  | Grab_raises py_exn
  | Yields input_event
  | Read_raises py_exn
  | Stream_ends
  | Ungrab_returns
  | Ungrab_raises py_exn

definition set_pc :: "nat \<Rightarrow> pc \<Rightarrow> 'a world \<Rightarrow> 'a world" where
  "set_pc tid p w = w\<lparr> threads := (threads w)[tid := p] \<rparr>"

definition print :: "line \<Rightarrow> 'a world \<Rightarrow> 'a world" where
  "print l w = w\<lparr> console := console w @ [l] \<rparr>"

definition call_device :: "nat \<Rightarrow> dev_call \<Rightarrow> 'a world \<Rightarrow> 'a world" where
  "call_device tid c w = w\<lparr> device_calls := device_calls w @ [(tid, c)] \<rparr>"

text \<open>
  An exception inside the \<^verbatim>\<open>try\<close>: \<^verbatim>\<open>except Exception\<close> prints it and control goes on to
  \<^verbatim>\<open>finally\<close>; any other exception goes to \<^verbatim>\<open>finally\<close> still pending.
\<close>

definition raise_in_try :: "nat \<Rightarrow> py_exn \<Rightarrow> 'a world \<Rightarrow> 'a world" where
  "raise_in_try tid e w =
     (if is_Exception (class_of e)
      then set_pc tid (At_finally None)
             (print (Stderr (''An error occurred in the event loop: '' @ str e)) w)
      else set_pc tid (At_finally (Some e)) w)"

fun event_loop :: "'a variant \<Rightarrow> nat \<Rightarrow> pc \<Rightarrow> loop_input \<Rightarrow> 'a world \<Rightarrow> 'a world" where
  "event_loop V tid At_grab (Grab_returns start_time) w =
     set_pc tid In_loop
       ((print (Stdout (grabbed_message V)) (call_device tid Grab w))
          \<lparr> accumulated := on_grabbed V start_time (accumulated w) \<rparr>)"
| "event_loop V tid At_grab (Grab_raises e) w =
     raise_in_try tid e (call_device tid Grab w)"
| "event_loop V tid In_loop (Yields event) w =
     (if \<not> is_running w then set_pc tid (At_finally None) w
      else w\<lparr> accumulated := on_event V event (accumulated w) \<rparr>)"
| "event_loop V tid In_loop (Read_raises e) w = raise_in_try tid e w"
| "event_loop V tid In_loop Stream_ends w = set_pc tid (At_finally None) w"
| "event_loop V tid (At_finally pending) Ungrab_returns w =
     set_pc tid (Exited pending)
       (print (Stdout ''Mouse device released.'') (call_device tid Ungrab w))"
| "event_loop V tid (At_finally pending) (Ungrab_raises e) w =
     set_pc tid (Exited (Some e)) (call_device tid Ungrab w)"
| "event_loop V tid _ _ w = w"

text \<open>
  A step of thread \<open>tid\<close>. An offer that does not fit the thread's control point (or names
  no thread) leaves the world as it is.

  A step on an event is one whole iteration of the loop. In the path variant the position
  is updated outside the lock and the point appended under it, so the step is what the
  source does while one loop thread is live; the properties of the accumulated result
  below are stated for such runs.
\<close>

definition loop_step :: "'a variant \<Rightarrow> nat \<times> loop_input \<Rightarrow> 'a world \<Rightarrow> 'a world" where
  "loop_step V = (\<lambda>(tid, inp) w.
     if tid < length (threads w) then event_loop V tid (threads w ! tid) inp w else w)"

definition loop_steps :: "'a variant \<Rightarrow> (nat \<times> loop_input) list \<Rightarrow> 'a world \<Rightarrow> 'a world" where
  "loop_steps V steps w = fold (loop_step V) steps w"

subsection \<open>Starting and stopping\<close>

definition start_tracking :: "'a world \<Rightarrow> 'a world" where
  "start_tracking w =
     (if tracking_thread w \<noteq> None
      then print (Stdout ''Tracking is already in progress.'') w
      else w\<lparr> is_running := True,
              tracking_thread := Some (length (threads w)),
              threads := threads w @ [At_grab] \<rparr>)"

text \<open>
  \<^verbatim>\<open>stop_tracking\<close> lowers the flag and joins the thread for at most one second; \<open>during\<close>
  is what the loop threads do while it waits. Whether the thread has ended by then is not
  looked at: \<^verbatim>\<open>join\<close> returns \<^verbatim>\<open>None\<close> either way.
\<close>

definition stop_tracking :: "'a variant \<Rightarrow> (nat \<times> loop_input) list \<Rightarrow> 'a world \<Rightarrow> 'a world" where
  "stop_tracking V during w =
     (if tracking_thread w \<noteq> None \<and> is_running w
      then print (Stdout ''Tracking stopped.'')
             ((loop_steps V during (w\<lparr> is_running := False \<rparr>))\<lparr> tracking_thread := None \<rparr>)
      else w)"

datatype action =
    Start_tracking
  | Stop_tracking "(nat \<times> loop_input) list"
  | Loop nat loop_input

fun perform :: "'a variant \<Rightarrow> action \<Rightarrow> 'a world \<Rightarrow> 'a world" where
  "perform V Start_tracking w = start_tracking w"
| "perform V (Stop_tracking during) w = stop_tracking V during w"
| "perform V (Loop tid inp) w = loop_step V (tid, inp) w"

definition run :: "'a variant \<Rightarrow> action list \<Rightarrow> 'a world \<Rightarrow> 'a world" where
  "run V acts w = fold (perform V) acts w"

subsection \<open>The scalar variant\<close>

definition xcount_on_event :: "input_event \<Rightarrow> int \<Rightarrow> int" where
  "xcount_on_event event total_x_movement =
     (if ev_type event = EV_REL
      then (if ev_code event = REL_X then total_x_movement + ev_value event
            else total_x_movement)
      else total_x_movement)"

definition xcount :: "int variant" where
  "xcount = \<lparr> initial = 0,
              grabbed_message = ''Mouse device grabbed exclusively.'',
              on_grabbed = (\<lambda>start_time total_x_movement. total_x_movement),
              on_event = xcount_on_event \<rparr>"

definition get_total_x_movement :: "int world \<Rightarrow> int" where
  "get_total_x_movement w = accumulated w"

subsection \<open>The path variant\<close>

record path_state =
  path_data :: "(timestamp \<times> int \<times> int) list"
  current_x :: int
  current_y :: int

definition path_on_grabbed :: "timestamp \<Rightarrow> path_state \<Rightarrow> path_state" where
  "path_on_grabbed start_time s =
     s\<lparr> path_data := path_data s @ [(start_time, current_x s, current_y s)] \<rparr>"

definition path_on_event :: "input_event \<Rightarrow> path_state \<Rightarrow> path_state" where
  "path_on_event event s =
     (if ev_type event = EV_REL
      then (let s1 = (if ev_code event = REL_X
                      then s\<lparr> current_x := current_x s + ev_value event \<rparr>
                      else if ev_code event = REL_Y
                      then s\<lparr> current_y := current_y s + - ev_value event \<rparr>
                      else s);
                event_time = ev_timestamp event
            in s1\<lparr> path_data := path_data s1 @ [(event_time, current_x s1, current_y s1)] \<rparr>)
      else s)"

definition tester :: "path_state variant" where
  "tester = \<lparr> initial = \<lparr> path_data = [], current_x = 0, current_y = 0 \<rparr>,
              grabbed_message = ''Mouse device grabbed exclusively. Tracking has begun.'',
              on_grabbed = path_on_grabbed,
              on_event = path_on_event \<rparr>"

definition get_path :: "path_state world \<Rightarrow> (timestamp \<times> int \<times> int) list" where
  "get_path w = path_data (accumulated w)"

section \<open>Sessions\<close>

text \<open>
  The actions of a tracker that is started, whose loop grabs the device at \<open>start_time\<close>
  and is given the events \<open>evs\<close> while the flag is up.
\<close>

definition tracking :: "nat \<Rightarrow> timestamp \<Rightarrow> input_event list \<Rightarrow> action list" where
  "tracking tid start_time evs =
     Start_tracking # Loop tid (Grab_returns start_time) # map (\<lambda>e. Loop tid (Yields e)) evs"

text \<open>
  A whole session: the same, then \<^verbatim>\<open>stop_tracking\<close>, during whose wait the loop is given
  one more event, \<open>final\<close>, sees the flag down, leaves the loop and releases the device.
\<close>

definition session :: "nat \<Rightarrow> timestamp \<Rightarrow> input_event list \<Rightarrow> input_event \<Rightarrow> action list" where
  "session tid start_time evs final =
     tracking tid start_time evs @ [Stop_tracking [(tid, Yields final), (tid, Ungrab_returns)]]"

text \<open>Motion events along the two axes, and the sums of deltas the properties speak of.\<close>

definition horizontal :: "int \<Rightarrow> timestamp \<Rightarrow> input_event" where
  "horizontal d t = \<lparr> ev_type = EV_REL, ev_code = REL_X, ev_value = d, ev_timestamp = t \<rparr>"

definition vertical :: "int \<Rightarrow> timestamp \<Rightarrow> input_event" where
  "vertical d t = \<lparr> ev_type = EV_REL, ev_code = REL_Y, ev_value = d, ev_timestamp = t \<rparr>"

definition relative :: "input_event list \<Rightarrow> input_event list" where
  "relative evs = filter (\<lambda>e. ev_type e = EV_REL) evs"

definition sum_x :: "input_event list \<Rightarrow> int" where
  "sum_x es = sum_list (map ev_value (filter (\<lambda>e. ev_code e = REL_X) es))"

definition sum_y :: "input_event list \<Rightarrow> int" where
  "sum_y es = sum_list (map ev_value (filter (\<lambda>e. ev_code e = REL_Y) es))"

text \<open>
  The points that relative-motion events \<open>es\<close> add to a path when the position before
  them is \<open>(x, y)\<close>: one point for each event, at the position reached after it.
\<close>

definition trail :: "int \<Rightarrow> int \<Rightarrow> input_event list \<Rightarrow> (timestamp \<times> int \<times> int) list" where
  "trail x y es =
     map (\<lambda>i. (ev_timestamp (es ! i), x + sum_x (take (Suc i) es), y - sum_y (take (Suc i) es)))
       [0..<length es]"

text \<open>The calls one thread has made on the device, in order.\<close>

definition calls_of :: "nat \<Rightarrow> (nat \<times> dev_call) list \<Rightarrow> dev_call list" where
  "calls_of tid calls = map snd (filter (\<lambda>c. fst c = tid) calls)"

fun calls_at :: "pc \<Rightarrow> dev_call list" where
  "calls_at At_grab = []"
| "calls_at In_loop = [Grab]"
| "calls_at (At_finally pending) = [Grab]"
| "calls_at (Exited pending) = [Grab, Ungrab]"

definition calls_ok :: "'a world \<Rightarrow> bool" where
  "calls_ok w \<longleftrightarrow>
     (\<forall>tid < length (threads w). calls_of tid (device_calls w) = calls_at (threads w ! tid)) \<and>
     (\<forall>c \<in> set (device_calls w). fst c < length (threads w))"

section \<open>Enumerating the devices\<close>

text \<open>
  \<^verbatim>\<open>find_all_mice\<close> is the same in both files. What it finds outside the program: the
  outcome of \<^verbatim>\<open>os.listdir('/dev/input')\<close> and, for each path, the outcome of
  \<^verbatim>\<open>InputDevice(path)\<close>; an opened device has a name and an outcome of
  \<^verbatim>\<open>capabilities(verbose=False)\<close>, a dictionary from event types to lists of codes.
\<close>

record input_device =
  device_name :: string
  device_capabilities :: "py_exn + (nat \<rightharpoonup> nat list)"

record dev_input =
  listdir :: "py_exn + string list"
  InputDevice :: "string \<Rightarrow> py_exn + input_device"

definition is_mouse :: "(nat \<rightharpoonup> nat list) \<Rightarrow> bool" where
  "is_mouse capabilities \<longleftrightarrow>
     capabilities EV_REL \<noteq> None \<and>
     REL_X \<in> set (case capabilities EV_REL of None \<Rightarrow> [] | Some codes \<Rightarrow> codes) \<and>
     REL_Y \<in> set (case capabilities EV_REL of None \<Rightarrow> [] | Some codes \<Rightarrow> codes)"

text \<open>
  The body of the \<^verbatim>\<open>try\<close> for one path: an exception, or the entry to append, if any.
\<close>

definition probe :: "dev_input \<Rightarrow> string \<Rightarrow> py_exn + (string \<times> string) option" where
  "probe env path =
     (case InputDevice env path of
        Inl e \<Rightarrow> Inl e
      | Inr device \<Rightarrow>
          (case device_capabilities device of
             Inl e \<Rightarrow> Inl e
           | Inr capabilities \<Rightarrow>
               Inr (if is_mouse capabilities then Some (path, device_name device) else None)))"

fun scan :: "dev_input \<Rightarrow> string list \<Rightarrow> (string \<times> string) list
               \<Rightarrow> py_exn + (string \<times> string) list" where
  "scan env [] mice = Inr mice"
| "scan env (path # device_paths) mice =
     (case probe env path of
        Inl e \<Rightarrow> (if is_OSError (class_of e) then scan env device_paths mice else Inl e)
      | Inr None \<Rightarrow> scan env device_paths mice
      | Inr (Some entry) \<Rightarrow> scan env device_paths (mice @ [entry]))"

definition find_all_mice :: "dev_input \<Rightarrow> line list \<times> (py_exn + (string \<times> string) list)" where
  "find_all_mice env =
     (case listdir env of
        Inl e \<Rightarrow>
          (if is_FileNotFoundError (class_of e)
           then ([Stderr ''The /dev/input directory was not found.''], Inr [])
           else ([], Inl e))
      | Inr names \<Rightarrow>
          ([], scan env (map (\<lambda>fn. ''/dev/input/'' @ fn)
                          (filter (\<lambda>fn. prefix ''event'' fn) names)) []))"

text \<open>A relative event of another axis: the scroll wheel, code 8 (\<^verbatim>\<open>REL_WHEEL\<close>).\<close>

definition wheel :: "int \<Rightarrow> timestamp \<Rightarrow> input_event" where
  "wheel d t = \<lparr> ev_type = EV_REL, ev_code = 8, ev_value = d, ev_timestamp = t \<rparr>"

section \<open>Some worlds\<close>

text \<open>
  A scalar tracker in a session, its loop waiting for the next event; and the same after
  \<^verbatim>\<open>stop_tracking\<close> when no event came during the wait: the thread is still in its loop.
\<close>

definition in_session :: "int world" where
  "in_session = run xcount (tracking 0 0 [horizontal 5 1]) (init xcount)"

definition outlived :: "int world" where
  "outlived = stop_tracking xcount [] in_session"

text \<open>
  A \<^verbatim>\<open>/dev/input\<close> that may not be listed, one that does not exist, and one with a mouse,
  a device that may not be opened, a keyboard and an entry that is no event device.
\<close>

definition unreadable :: dev_input where
  "unreadable = \<lparr> listdir = Inl (Raise PermissionError ''Permission denied''),
                   InputDevice = (\<lambda>path. Inl (Raise PermissionError ''Permission denied'')) \<rparr>"

definition missing :: dev_input where
  "missing = \<lparr> listdir = Inl (Raise FileNotFoundError ''No such file or directory''),
                InputDevice = (\<lambda>path. Inl (Raise FileNotFoundError ''No such file or directory'')) \<rparr>"

definition desk :: dev_input where
  "desk = \<lparr> listdir = Inr [''event0'', ''event1'', ''mice'', ''event2''],
             InputDevice = (\<lambda>path.
               if path = ''/dev/input/event0''
               then Inr \<lparr> device_name = ''Mouse'',
                          device_capabilities = Inr [0 \<mapsto> [0, 1], 2 \<mapsto> [0, 1, 8]] \<rparr>
               else if path = ''/dev/input/event2''
               then Inr \<lparr> device_name = ''Keyboard'',
                          device_capabilities = Inr [0 \<mapsto> [0, 1], 1 \<mapsto> [1, 2, 3]] \<rparr>
               else Inl (Raise PermissionError ''Permission denied'')) \<rparr>"

text \<open>The entry \<^verbatim>\<open>find_all_mice\<close> appends for a path, if any.\<close>

definition found :: "dev_input \<Rightarrow> string \<Rightarrow> (string \<times> string) option" where
  "found env path = (case probe env path of Inr (Some entry) \<Rightarrow> Some entry | _ \<Rightarrow> None)"

definition device_paths :: "string list \<Rightarrow> string list" where
  "device_paths names = map (\<lambda>fn. ''/dev/input/'' @ fn) (filter (\<lambda>fn. prefix ''event'' fn) names)"

section \<open>Running the loop\<close>

lemma xcount_simps:
  "initial xcount = 0" "on_event xcount = xcount_on_event"
  "on_grabbed xcount = (\<lambda>start_time total_x_movement. total_x_movement)"
  "grabbed_message xcount = ''Mouse device grabbed exclusively.''"
  by (simp_all add: xcount_def)

lemma tester_simps:
  "initial tester = \<lparr> path_data = [], current_x = 0, current_y = 0 \<rparr>"
  "on_event tester = path_on_event" "on_grabbed tester = path_on_grabbed"
  "grabbed_message tester = ''Mouse device grabbed exclusively. Tracking has begun.''"
  by (simp_all add: tester_def)

lemma run_Nil: "run V [] w = w"
  by (simp add: run_def)

lemma run_Cons: "run V (a # acts) w = run V acts (perform V a w)"
  by (simp add: run_def)

lemma run_append: "run V (xs @ ys) w = run V ys (run V xs w)"
  by (simp add: run_def)

lemma run_yields:
  "tid < length (threads w) \<Longrightarrow> threads w ! tid = In_loop \<Longrightarrow> is_running w \<Longrightarrow>
   run V (map (\<lambda>e. Loop tid (Yields e)) evs) w
     = w\<lparr> accumulated := fold (on_event V) evs (accumulated w) \<rparr>"
  unfolding run_def
  by (induction evs arbitrary: w) (simp_all add: loop_step_def)

lemma run_tracking:
  assumes "tracking_thread w = None"
  shows "run V (tracking (length (threads w)) start_time evs) w =
    w\<lparr> is_running := True,
       tracking_thread := Some (length (threads w)),
       accumulated := fold (on_event V) evs (on_grabbed V start_time (accumulated w)),
       threads := threads w @ [In_loop],
       device_calls := device_calls w @ [(length (threads w), Grab)],
       console := console w @ [Stdout (grabbed_message V)] \<rparr>"
proof -
  let ?n = "length (threads w)"
  let ?w1 = "loop_step V (?n, Grab_returns start_time) (start_tracking w)"
  have w1: "?w1 = w\<lparr> is_running := True, tracking_thread := Some ?n,
       accumulated := on_grabbed V start_time (accumulated w),
       threads := threads w @ [In_loop],
       device_calls := device_calls w @ [(?n, Grab)],
       console := console w @ [Stdout (grabbed_message V)] \<rparr>"
    using assms
    by (simp add: start_tracking_def loop_step_def set_pc_def print_def call_device_def)
  have "run V (tracking ?n start_time evs) w = run V (map (\<lambda>e. Loop ?n (Yields e)) evs) ?w1"
    by (simp add: tracking_def run_Cons)
  also have "\<dots> = ?w1\<lparr> accumulated := fold (on_event V) evs (accumulated ?w1) \<rparr>"
    by (rule run_yields) (simp_all add: w1)
  finally show ?thesis by (simp add: w1)
qed

lemma run_session:
  assumes "tracking_thread w = None"
  shows "run V (session (length (threads w)) start_time evs final) w =
    w\<lparr> is_running := False,
       tracking_thread := None,
       accumulated := fold (on_event V) evs (on_grabbed V start_time (accumulated w)),
       threads := threads w @ [Exited None],
       device_calls := device_calls w @ [(length (threads w), Grab), (length (threads w), Ungrab)],
       console := console w @ [Stdout (grabbed_message V), Stdout ''Mouse device released.'',
                               Stdout ''Tracking stopped.''] \<rparr>"
  by (simp add: session_def run_append run_tracking [OF assms] run_Cons run_Nil
      stop_tracking_def loop_steps_def loop_step_def set_pc_def print_def call_device_def)

section \<open>The scalar variant\<close>

lemma fold_xcount_on_event:
  "fold xcount_on_event evs t = t + sum_x (relative evs)"
  by (induction evs arbitrary: t) (simp_all add: xcount_on_event_def sum_x_def relative_def)

text \<open>
  Claim C1. A fresh scalar tracker is started and its loop is given the events \<open>evs\<close>: the
  total that \<^verbatim>\<open>get_total_x_movement()\<close> returns, while tracking and after the stop, is the sum
  of the values of the relative events on the horizontal axis; events of another axis or
  type add nothing. For horizontal events of deltas \<open>ds\<close> that is the sum of \<open>ds\<close>, and the
  deltas 5, -2 and 10 give 13.
\<close>

theorem total_is_sum_of_horizontal_deltas:
  "get_total_x_movement (run xcount (tracking 0 start_time evs) (init xcount))
     = sum_x (relative evs) \<and>
   get_total_x_movement (run xcount (session 0 start_time evs final) (init xcount))
     = sum_x (relative evs) \<and>
   sum_x (relative (map (\<lambda>d. horizontal d t) ds)) = sum_list ds \<and>
   get_total_x_movement
     (run xcount (tracking 0 start_time [horizontal 5 t1, horizontal (- 2) t2, horizontal 10 t3])
        (init xcount)) = 13"
proof -
  have i: "tracking_thread (init xcount) = None" "length (threads (init xcount)) = 0"
    "accumulated (init xcount) = 0"
    by (simp_all add: init_def xcount_simps)
  have a: "get_total_x_movement (run xcount (tracking 0 start_time es) (init xcount))
             = sum_x (relative es)" for es
    using run_tracking [OF i(1), of xcount start_time es]
    by (simp add: i get_total_x_movement_def xcount_simps fold_xcount_on_event)
  have b: "get_total_x_movement (run xcount (session 0 start_time evs final) (init xcount))
             = sum_x (relative evs)"
    using run_session [OF i(1), of xcount start_time evs final]
    by (simp add: i get_total_x_movement_def xcount_simps fold_xcount_on_event)
  have c: "sum_x (relative (map (\<lambda>d. horizontal d t) ds)) = sum_list ds"
    by (induction ds) (simp_all add: sum_x_def relative_def horizontal_def)
  have d: "sum_x (relative [horizontal 5 t1, horizontal (- 2) t2, horizontal 10 t3]) = 13"
    by (simp add: sum_x_def relative_def horizontal_def)
  show ?thesis using a [of evs] a [of "[horizontal 5 t1, horizontal (- 2) t2, horizontal 10 t3]"] b c d
    by simp
qed

theorem total_is_sum_of_horizontal_deltas_witness:
  "get_total_x_movement
     (run xcount (session 0 0 [horizontal 5 1, vertical 7 2, horizontal (- 2) 3] (horizontal 1 4))
        (init xcount)) = 3"
  using total_is_sum_of_horizontal_deltas
    [of 0 "[horizontal 5 1, vertical 7 2, horizontal (- 2) 3]" "horizontal 1 4"]
  by (simp add: sum_x_def relative_def horizontal_def vertical_def EV_REL_def REL_X_def REL_Y_def)


section \<open>The path variant\<close>

lemma sum_x_snoc: "sum_x (es @ [e]) = sum_x es + (if ev_code e = REL_X then ev_value e else 0)"
  by (simp add: sum_x_def)

lemma sum_y_snoc: "sum_y (es @ [e]) = sum_y es + (if ev_code e = REL_Y then ev_value e else 0)"
  by (simp add: sum_y_def)

lemma trail_snoc:
  "trail x y (es @ [e]) =
     trail x y es @ [(ev_timestamp e, x + sum_x (es @ [e]), y - sum_y (es @ [e]))]"
  by (simp add: trail_def nth_append)

lemma length_trail: "length (trail x y es) = length es"
  by (simp add: trail_def)

lemma nth_trail:
  "i < length es \<Longrightarrow>
   trail x y es ! i = (ev_timestamp (es ! i), x + sum_x (take (Suc i) es), y - sum_y (take (Suc i) es))"
  by (simp add: trail_def)

lemma times_trail: "map fst (trail x y es) = map ev_timestamp es"
  by (rule nth_equalityI) (simp_all add: trail_def)

lemma fold_path_on_event:
  "fold path_on_event evs s =
     \<lparr> path_data = path_data s @ trail (current_x s) (current_y s) (relative evs),
       current_x = current_x s + sum_x (relative evs),
       current_y = current_y s - sum_y (relative evs) \<rparr>"
proof (induction evs rule: rev_induct)
  case Nil
  show ?case by (simp add: trail_def sum_x_def sum_y_def relative_def)
next
  case (snoc e evs)
  show ?case
  proof (cases "ev_type e = EV_REL")
    case False
    then show ?thesis using snoc by (simp add: path_on_event_def relative_def)
  next
    case True
    then show ?thesis using snoc
      by (simp add: path_on_event_def Let_def relative_def trail_snoc sum_x_snoc sum_y_snoc
          REL_X_def REL_Y_def)
  qed
qed

lemma path_while_tracking:
  "get_path (run tester (tracking 0 start_time evs) (init tester))
     = (start_time, 0, 0) # trail 0 0 (relative evs)"
proof -
  have i: "tracking_thread (init tester) = None" "length (threads (init tester)) = 0"
    "accumulated (init tester) = \<lparr> path_data = [], current_x = 0, current_y = 0 \<rparr>"
    by (simp_all add: init_def tester_simps)
  show ?thesis
    using run_tracking [OF i(1), of tester start_time evs]
    by (simp add: i get_path_def tester_simps fold_path_on_event path_on_grabbed_def)
qed

lemma path_after_session:
  "get_path (run tester (session 0 start_time evs final) (init tester))
     = (start_time, 0, 0) # trail 0 0 (relative evs)"
proof -
  have i: "tracking_thread (init tester) = None" "length (threads (init tester)) = 0"
    "accumulated (init tester) = \<lparr> path_data = [], current_x = 0, current_y = 0 \<rparr>"
    by (simp_all add: init_def tester_simps)
  show ?thesis
    using run_session [OF i(1), of tester start_time evs final]
    by (simp add: i get_path_def tester_simps fold_path_on_event path_on_grabbed_def)
qed

lemma position_in_path:
  "i \<le> length es \<Longrightarrow>
   snd (((t, x, y) # trail x y es) ! i) = (x + sum_x (take i es), y - sum_y (take i es))"
  by (cases i) (simp_all add: nth_trail sum_x_def sum_y_def)

lemma step_in_path:
  assumes "i < length es"
  shows "((t, x, y) # trail x y es) ! Suc i = (ev_timestamp (es ! i),
          fst (snd (((t, x, y) # trail x y es) ! i))
            + (if ev_code (es ! i) = REL_X then ev_value (es ! i) else 0),
          snd (snd (((t, x, y) # trail x y es) ! i))
            + (if ev_code (es ! i) = REL_Y then - ev_value (es ! i) else 0))"
proof -
  have "snd (((t, x, y) # trail x y es) ! i) = (x + sum_x (take i es), y - sum_y (take i es))"
    using assms by (intro position_in_path) simp
  moreover have "take (Suc i) es = take i es @ [es ! i]"
    using assms by (rule take_Suc_conv_app_nth)
  ultimately show ?thesis
    using assms by (simp add: nth_trail sum_x_snoc sum_y_snoc)
qed

lemma last_in_path:
  "snd (last ((t, x, y) # trail x y es)) = (x + sum_x es, y - sum_y es)"
proof -
  let ?p = "(t, x, y) # trail x y es"
  have "last ?p = ?p ! (length ?p - 1)"
    by (rule last_conv_nth) simp
  then have "last ?p = ?p ! length es"
    by (simp add: length_trail)
  then show ?thesis
    using position_in_path [of "length es" es t x y] by simp
qed

text \<open>
  Claim C2. A fresh path tracker is started and its loop is given the events \<open>evs\<close>: the
  path has one point for the start, at \<open>(0, 0)\<close>, and one for each relative event; each
  point is its predecessor moved by the event's value along the horizontal axis, or by the
  negated value along the vertical axis, the other axis unchanged; the last point is at
  (sum of the horizontal values, negated sum of the vertical values); the stop changes
  nothing of it. The events (horizontal, 3) and (vertical, 4) give the path
  \<open>[(t0, 0, 0), (t1, 3, 0), (t2, 3, -4)]\<close>.
\<close>

theorem path_is_cumulative:
  "(let p = get_path (run tester (tracking 0 start_time evs) (init tester));
        es = relative evs
    in length p = Suc (length es) \<and>
       p ! 0 = (start_time, 0, 0) \<and>
       (\<forall>i < length es.
          p ! Suc i =
            (ev_timestamp (es ! i),
             fst (snd (p ! i)) + (if ev_code (es ! i) = REL_X then ev_value (es ! i) else 0),
             snd (snd (p ! i)) + (if ev_code (es ! i) = REL_Y then - ev_value (es ! i) else 0))) \<and>
       snd (last p) = (sum_x es, - sum_y es) \<and>
       get_path (run tester (session 0 start_time evs final) (init tester)) = p) \<and>
   get_path (run tester (tracking 0 t0 [horizontal 3 t1, vertical 4 t2]) (init tester))
     = [(t0, 0, 0), (t1, 3, 0), (t2, 3, - 4)]"
proof -
  let ?es = "relative evs"
  let ?p = "(start_time, 0, 0) # trail 0 0 ?es"
  have "length ?p = Suc (length ?es)" by (simp add: length_trail)
  moreover have "?p ! 0 = (start_time, 0, 0)" by simp
  moreover have "\<forall>i < length ?es.
          ?p ! Suc i =
            (ev_timestamp (?es ! i),
             fst (snd (?p ! i)) + (if ev_code (?es ! i) = REL_X then ev_value (?es ! i) else 0),
             snd (snd (?p ! i)) + (if ev_code (?es ! i) = REL_Y then - ev_value (?es ! i) else 0))"
    using step_in_path [of _ ?es start_time 0 0] by blast
  moreover have "snd (last ?p) = (sum_x ?es, - sum_y ?es)"
    using last_in_path [of start_time 0 0 ?es] by simp
  moreover have "get_path (run tester (tracking 0 t0 [horizontal 3 t1, vertical 4 t2]) (init tester))
     = [(t0, 0, 0), (t1, 3, 0), (t2, 3, - 4)]"
    by (simp add: path_while_tracking relative_def horizontal_def vertical_def trail_def
        sum_x_def sum_y_def REL_X_def REL_Y_def upt_rec)
  ultimately show ?thesis
    unfolding Let_def path_while_tracking path_after_session by blast
qed

theorem path_is_cumulative_witness:
  "(let evs = [horizontal 3 1, vertical 4 2];
        p = get_path (run tester (tracking 0 0 evs) (init tester))
    in (1::nat) < length (relative evs) \<and>
       p ! Suc 1 = (2, fst (snd (p ! 1)) + 0, snd (snd (p ! 1)) + - 4) \<and>
       p = [(0, 0, 0), (1, 3, 0), (2, 3, - 4)])"
proof -
  let ?evs = "[horizontal 3 1, vertical 4 2]"
  have es: "relative ?evs = ?evs"
    by (simp add: relative_def horizontal_def vertical_def)
  have len: "(1::nat) < length (relative ?evs)"
    by (simp add: es)
  note t = path_is_cumulative [of 0 ?evs "horizontal 1 3" 0 1 2, unfolded Let_def]
  from t have "\<forall>i < length (relative ?evs).
      get_path (run tester (tracking 0 0 ?evs) (init tester)) ! Suc i =
            (ev_timestamp (relative ?evs ! i),
             fst (snd (get_path (run tester (tracking 0 0 ?evs) (init tester)) ! i))
               + (if ev_code (relative ?evs ! i) = REL_X then ev_value (relative ?evs ! i) else 0),
             snd (snd (get_path (run tester (tracking 0 0 ?evs) (init tester)) ! i))
               + (if ev_code (relative ?evs ! i) = REL_Y then - ev_value (relative ?evs ! i) else 0))"
    by blast
  from this [rule_format, OF len, unfolded es]
  have "get_path (run tester (tracking 0 0 ?evs) (init tester)) ! Suc 1 =
     (2, fst (snd (get_path (run tester (tracking 0 0 ?evs) (init tester)) ! 1)) + 0,
         snd (snd (get_path (run tester (tracking 0 0 ?evs) (init tester)) ! 1)) + - 4)"
    by (simp add: vertical_def REL_X_def REL_Y_def)
  moreover from t have "get_path (run tester (tracking 0 0 ?evs) (init tester))
      = [(0, 0, 0), (1, 3, 0), (2, 3, - 4)]"
    by blast
  ultimately show ?thesis using len unfolding Let_def by blast
qed

section \<open>Invariants of a run\<close>

lemma run_invariant:
  assumes "P w" and "\<And>a w. P w \<Longrightarrow> P (perform V a w)"
  shows "P (run V acts w)"
  using assms(1) unfolding run_def
  by (induction acts arbitrary: w) (simp_all add: assms(2))

lemma loop_steps_invariant:
  assumes "P w" and "\<And>s w. P w \<Longrightarrow> P (loop_step V s w)"
  shows "P (loop_steps V steps w)"
  using assms(1) unfolding loop_steps_def
  by (induction steps arbitrary: w) (simp_all add: assms(2))

lemma perform_invariant:
  assumes "P w"
    and loop: "\<And>s w. P w \<Longrightarrow> P (loop_step V s w)"
    and start: "\<And>w. P w \<Longrightarrow> P (start_tracking w)"
    and flag: "\<And>w. P w \<Longrightarrow> P (w\<lparr> is_running := False \<rparr>)"
    and forget: "\<And>w. P w \<Longrightarrow> P (print (Stdout ''Tracking stopped.'') (w\<lparr> tracking_thread := None \<rparr>))"
  shows "P (perform V a w)"
proof (cases a)
  case Start_tracking
  then show ?thesis using assms(1) start by simp
next
  case (Stop_tracking during)
  have "P (loop_steps V during (w\<lparr> is_running := False \<rparr>))"
    by (rule loop_steps_invariant) (simp_all add: flag assms(1) loop)
  then show ?thesis
    using Stop_tracking assms(1) forget by (simp add: stop_tracking_def)
next
  case (Loop tid inp)
  then show ?thesis using assms(1) loop by simp
qed

subsection \<open>Calls on the device\<close>

lemma calls_of_append: "calls_of tid (xs @ ys) = calls_of tid xs @ calls_of tid ys"
  by (simp add: calls_of_def)

lemma calls_of_single: "calls_of tid [(tid', c)] = (if tid' = tid then [c] else [])"
  by (simp add: calls_of_def)

lemma calls_ok_event_loop:
  assumes "calls_ok w" "tid < length (threads w)"
  shows "calls_ok (event_loop V tid (threads w ! tid) inp w)"
proof (cases "threads w ! tid")
  case At_grab
  then show ?thesis using assms
    by (cases inp)
       (auto simp: calls_ok_def set_pc_def print_def call_device_def raise_in_try_def
          calls_of_append calls_of_single nth_list_update)
next
  case In_loop
  then show ?thesis using assms
    by (cases inp)
       (auto simp: calls_ok_def set_pc_def print_def call_device_def raise_in_try_def
          calls_of_append calls_of_single nth_list_update)
next
  case (At_finally pending)
  then show ?thesis using assms
    by (cases inp)
       (auto simp: calls_ok_def set_pc_def print_def call_device_def raise_in_try_def
          calls_of_append calls_of_single nth_list_update)
next
  case (Exited pending)
  then show ?thesis using assms by (cases inp) simp_all
qed

lemma calls_ok_loop_step: "calls_ok w \<Longrightarrow> calls_ok (loop_step V s w)"
  by (cases s) (simp add: loop_step_def calls_ok_event_loop)

lemma calls_ok_start_tracking: "calls_ok w \<Longrightarrow> calls_ok (start_tracking w)"
  unfolding calls_ok_def start_tracking_def print_def
  by (auto simp: nth_append calls_of_def filter_empty_conv less_Suc_eq)

lemma calls_ok_perform: "calls_ok w \<Longrightarrow> calls_ok (perform V a w)"
  by (rule perform_invariant [where P = calls_ok])
     (simp_all add: calls_ok_loop_step calls_ok_start_tracking, simp_all add: calls_ok_def print_def)

lemma calls_ok_run: "calls_ok (run V acts (init V))"
  by (rule run_invariant) (simp_all add: calls_ok_perform, simp add: calls_ok_def init_def)

lemmas model_defs =
  run_def tracking_def session_def start_tracking_def stop_tracking_def loop_steps_def
  loop_step_def set_pc_def print_def call_device_def raise_in_try_def init_def

text \<open>
  Claim C4. Whatever the tracker and its threads have done since \<^verbatim>\<open>__init__\<close>, a loop thread
  that has ended has called \<^verbatim>\<open>grab\<close> once and then \<^verbatim>\<open>ungrab\<close> once, and nothing else, on the
  device: every way out of the loop (the flag seen down, the end of the stream, an
  exception of \<^verbatim>\<open>grab\<close> or of the read) goes through \<^verbatim>\<open>finally\<close>.
\<close>

theorem ungrab_exactly_once_on_exit:
  assumes "tid < length (threads (run V acts (init V)))"
    and "threads (run V acts (init V)) ! tid = Exited pending"
  shows "calls_of tid (device_calls (run V acts (init V))) = [Grab, Ungrab]"
proof -
  have "calls_ok (run V acts (init V))" by (rule calls_ok_run)
  then have "calls_of tid (device_calls (run V acts (init V)))
               = calls_at (threads (run V acts (init V)) ! tid)"
    using assms(1) by (simp add: calls_ok_def)
  then show ?thesis by (simp add: assms(2))
qed

theorem ungrab_exactly_once_on_exit_witness:
  "(let w = run xcount (session 0 0 [horizontal 5 1] (horizontal 1 2)) (init xcount)
    in threads w ! 0 = Exited None \<and> calls_of 0 (device_calls w) = [Grab, Ungrab]) \<and>
   (let w = run xcount [Start_tracking, Loop 0 (Grab_returns 0), Loop 0 Stream_ends,
                        Loop 0 Ungrab_returns] (init xcount)
    in threads w ! 0 = Exited None \<and> calls_of 0 (device_calls w) = [Grab, Ungrab]) \<and>
   (let w = run xcount [Start_tracking, Loop 0 (Grab_returns 0),
                        Loop 0 (Read_raises (Raise OSError ''No such device'')),
                        Loop 0 Ungrab_returns] (init xcount)
    in threads w ! 0 = Exited None \<and> calls_of 0 (device_calls w) = [Grab, Ungrab]) \<and>
   (let w = run xcount [Start_tracking,
                        Loop 0 (Grab_raises (Raise OSError ''Device or resource busy'')),
                        Loop 0 (Ungrab_raises (Raise OSError ''Invalid argument''))] (init xcount)
    in threads w ! 0 = Exited (Some (Raise OSError ''Invalid argument'')) \<and>
       calls_of 0 (device_calls w) = [Grab, Ungrab])"
proof -
  let ?a = "session 0 0 [horizontal 5 1] (horizontal 1 2)"
  let ?b = "[Start_tracking, Loop 0 (Grab_returns 0), Loop 0 Stream_ends, Loop 0 Ungrab_returns]"
  let ?c = "[Start_tracking, Loop 0 (Grab_returns 0),
             Loop 0 (Read_raises (Raise OSError ''No such device'')), Loop 0 Ungrab_returns]"
  let ?d = "[Start_tracking, Loop 0 (Grab_raises (Raise OSError ''Device or resource busy'')),
             Loop 0 (Ungrab_raises (Raise OSError ''Invalid argument''))]"
  have a: "threads (run xcount ?a (init xcount)) = [Exited None]"
    by (simp add: model_defs)
  have b: "threads (run xcount ?b (init xcount)) = [Exited None]"
    by (simp add: model_defs)
  have c: "threads (run xcount ?c (init xcount)) = [Exited None]"
    by (simp add: model_defs)
  have d: "threads (run xcount ?d (init xcount)) = [Exited (Some (Raise OSError ''Invalid argument''))]"
    by (simp add: model_defs)
  show ?thesis
    using ungrab_exactly_once_on_exit [of 0 xcount ?a None]
      ungrab_exactly_once_on_exit [of 0 xcount ?b None]
      ungrab_exactly_once_on_exit [of 0 xcount ?c None]
      ungrab_exactly_once_on_exit [of 0 xcount ?d "Some (Raise OSError ''Invalid argument'')"]
    by (simp add: a b c d Let_def)
qed

subsection \<open>Events of another axis\<close>

text \<open>
  Claim C10. In the path variant, a relative event whose code is neither \<^verbatim>\<open>REL_X\<close> nor
  \<^verbatim>\<open>REL_Y\<close>, given to the loop of a tracker after any events \<open>evs\<close> of its session, appends
  a point with the event's timestamp and the coordinates of the last point of the path.
\<close>

theorem other_axis_repeats_position:
  assumes "ev_type event = EV_REL" and "ev_code event \<noteq> REL_X" and "ev_code event \<noteq> REL_Y"
  shows "get_path (run tester (tracking 0 start_time evs) (init tester)) \<noteq> [] \<and>
         get_path (loop_step tester (0, Yields event)
                     (run tester (tracking 0 start_time evs) (init tester)))
           = get_path (run tester (tracking 0 start_time evs) (init tester))
               @ [(ev_timestamp event,
                   snd (last (get_path (run tester (tracking 0 start_time evs) (init tester)))))] \<and>
         get_path (run tester (tracking 0 start_time (evs @ [event])) (init tester))
           = get_path (run tester (tracking 0 start_time evs) (init tester))
               @ [(ev_timestamp event,
                   snd (last (get_path (run tester (tracking 0 start_time evs) (init tester)))))]"
proof -
  let ?w = "run tester (tracking 0 start_time evs) (init tester)"
  let ?es = "relative evs"
  have i: "tracking_thread (init tester) = None" "length (threads (init tester)) = 0"
    "accumulated (init tester) = \<lparr> path_data = [], current_x = 0, current_y = 0 \<rparr>"
    by (simp_all add: init_def tester_simps)
  have t: "threads ?w = [In_loop]" and r: "is_running ?w"
    and acc: "accumulated ?w = \<lparr> path_data = (start_time, 0, 0) # trail 0 0 ?es,
                                  current_x = sum_x ?es, current_y = - sum_y ?es \<rparr>"
    using run_tracking [OF i(1), of tester start_time evs]
    by (simp_all add: i init_def tester_simps fold_path_on_event path_on_grabbed_def)
  have p: "get_path ?w = (start_time, 0, 0) # trail 0 0 ?es"
    by (rule path_while_tracking)
  have l: "snd (last (get_path ?w)) = (sum_x ?es, - sum_y ?es)"
    unfolding p using last_in_path [of start_time 0 0 ?es] by simp
  have a: "get_path ?w \<noteq> []"
    by (simp add: p)
  have b: "get_path (loop_step tester (0, Yields event) ?w)
             = get_path ?w @ [(ev_timestamp event, snd (last (get_path ?w)))]"
    unfolding l using assms
    by (simp add: get_path_def loop_step_def t r acc tester_simps path_on_event_def Let_def)
  have "relative (evs @ [event]) = ?es @ [event]"
    using assms(1) by (simp add: relative_def)
  then have c: "get_path (run tester (tracking 0 start_time (evs @ [event])) (init tester))
             = get_path ?w @ [(ev_timestamp event, snd (last (get_path ?w)))]"
    unfolding l using assms(2,3)
    by (simp add: path_while_tracking trail_snoc sum_x_snoc sum_y_snoc)
  show ?thesis using a b c by simp
qed

theorem other_axis_repeats_position_witness:
  "ev_type (wheel (- 1) 3) = EV_REL \<and> ev_code (wheel (- 1) 3) \<noteq> REL_X \<and>
   ev_code (wheel (- 1) 3) \<noteq> REL_Y \<and>
   get_path (run tester (tracking 0 0 [horizontal 3 1, vertical 4 2]) (init tester))
     = [(0, 0, 0), (1, 3, 0), (2, 3, - 4)] \<and>
   get_path (loop_step tester (0, Yields (wheel (- 1) 3))
               (run tester (tracking 0 0 [horizontal 3 1, vertical 4 2]) (init tester)))
     = [(0, 0, 0), (1, 3, 0), (2, 3, - 4), (3, 3, - 4)] \<and>
   get_path (run tester (tracking 0 0 ([horizontal 3 1, vertical 4 2] @ [wheel (- 1) 3]))
               (init tester))
     = [(0, 0, 0), (1, 3, 0), (2, 3, - 4), (3, 3, - 4)]"
proof -
  let ?evs = "[horizontal 3 1, vertical 4 2]"
  have h: "ev_type (wheel (- 1) 3) = EV_REL" "ev_code (wheel (- 1) 3) \<noteq> REL_X"
    "ev_code (wheel (- 1) 3) \<noteq> REL_Y"
    by (simp_all add: wheel_def REL_X_def REL_Y_def)
  have p: "get_path (run tester (tracking 0 0 ?evs) (init tester))
             = [(0, 0, 0), (1, 3, 0), (2, 3, - 4)]"
    by (simp add: path_while_tracking relative_def horizontal_def vertical_def trail_def
        sum_x_def sum_y_def REL_X_def REL_Y_def upt_rec)
  have ts: "ev_timestamp (wheel (- 1) 3) = 3"
    by (simp add: wheel_def)
  show ?thesis
    using other_axis_repeats_position [OF h, of 0 ?evs] h
    unfolding p ts by simp
qed

subsection \<open>Timestamps\<close>

text \<open>
  Claim C6 says that the timestamps of every path are non-decreasing. The start point has
  the value of \<^verbatim>\<open>time.monotonic()\<close>, the others the timestamps the device gave its events,
  taken as they come: when the wall clock is set back between two events, the path goes
  back in time.
\<close>

theorem path_timestamps_counterexample:
  "\<not> sorted (map fst (get_path
       (run tester (tracking 0 100 [horizontal 1 1700000005, horizontal 1 1700000001])
          (init tester))))"
  by (simp add: path_while_tracking times_trail relative_def horizontal_def)

text \<open>
  Claim C6, amended. The timestamps of the path are the start time followed by the
  timestamps of the relative events, in the order of their delivery; they are
  non-decreasing when that sequence is.
\<close>

theorem path_timestamps_are_those_given:
  "map fst (get_path (run tester (tracking 0 start_time evs) (init tester)))
     = start_time # map ev_timestamp (relative evs) \<and>
   map fst (get_path (run tester (session 0 start_time evs final) (init tester)))
     = start_time # map ev_timestamp (relative evs) \<and>
   (sorted (start_time # map ev_timestamp (relative evs)) \<longrightarrow>
      sorted (map fst (get_path (run tester (tracking 0 start_time evs) (init tester)))) \<and>
      sorted (map fst (get_path (run tester (session 0 start_time evs final) (init tester)))))"
  by (simp add: path_while_tracking path_after_session times_trail)

theorem path_timestamps_are_those_given_witness:
  "sorted (100 # map ev_timestamp (relative [horizontal 1 101, vertical 2 101, horizontal 1 103])) \<and>
   sorted (map fst (get_path
     (run tester (tracking 0 100 [horizontal 1 101, vertical 2 101, horizontal 1 103])
        (init tester))))"
  using path_timestamps_are_those_given
    [of 100 "[horizontal 1 101, vertical 2 101, horizontal 1 103]" "horizontal 1 104"]
  by (simp add: relative_def horizontal_def vertical_def)

section \<open>Starting and stopping\<close>

lemma event_loop_frame:
  "is_running (event_loop V tid p inp w) = is_running w \<and>
   tracking_thread (event_loop V tid p inp w) = tracking_thread w \<and>
   length (threads (event_loop V tid p inp w)) = length (threads w)"
  by (cases "(V, tid, p, inp, w)" rule: event_loop.cases)
     (simp_all add: set_pc_def print_def call_device_def raise_in_try_def)

lemma loop_step_frame:
  "is_running (loop_step V s w) = is_running w \<and>
   tracking_thread (loop_step V s w) = tracking_thread w \<and>
   length (threads (loop_step V s w)) = length (threads w)"
  by (cases s) (simp add: loop_step_def event_loop_frame)

lemma loop_steps_frame:
  "is_running (loop_steps V steps w) = is_running w \<and>
   tracking_thread (loop_steps V steps w) = tracking_thread w \<and>
   length (threads (loop_steps V steps w)) = length (threads w)"
  unfolding loop_steps_def
  by (induction steps arbitrary: w) (simp_all add: loop_step_frame)

lemma in_session_eq:
  "in_session = \<lparr> tracking_thread = Some 0, is_running = True, accumulated = 5,
                   threads = [In_loop], device_calls = [(0, Grab)],
                   console = [Stdout ''Mouse device grabbed exclusively.''] \<rparr>"
  by (simp add: in_session_def model_defs xcount_simps xcount_on_event_def horizontal_def)

lemma outlived_eq:
  "outlived = \<lparr> tracking_thread = None, is_running = False, accumulated = 5,
                 threads = [In_loop], device_calls = [(0, Grab)],
                 console = [Stdout ''Mouse device grabbed exclusively.'',
                            Stdout ''Tracking stopped.''] \<rparr>"
  by (simp add: outlived_def in_session_eq stop_tracking_def loop_steps_def print_def)

text \<open>
  Claim C9. \<^verbatim>\<open>stop_tracking()\<close> on a tracker that holds no thread does nothing: the world
  after it is the world before it, whatever the threads are offered meanwhile.
\<close>

theorem stop_when_idle_is_noop:
  "tracking_thread w = None \<Longrightarrow> stop_tracking V during w = w"
  by (simp add: stop_tracking_def)

theorem stop_when_idle_is_noop_witness:
  "tracking_thread (init xcount) = None \<and>
   stop_tracking xcount [(0, Ungrab_returns)] (init xcount) = init xcount \<and>
   tracking_thread outlived = None \<and>
   stop_tracking xcount [(0, Yields (horizontal 1 2))] outlived = outlived"
proof -
  have a: "tracking_thread (init xcount) = None" by (simp add: init_def)
  have b: "tracking_thread outlived = None"
    by (simp add: outlived_eq)
  show ?thesis
    using stop_when_idle_is_noop [OF a, of xcount "[(0, Ungrab_returns)]"]
      stop_when_idle_is_noop [OF b, of xcount "[(0, Yields (horizontal 1 2))]"] a b
    by simp
qed

text \<open>
  Claim C5 says that \<^verbatim>\<open>stop_tracking()\<close> reports a timeout when the loop has not ended
  within the wait. Here no event comes during the wait: the thread is still in its loop
  after the call, the tracker has forgotten it, and all the call has printed is
  \<^verbatim>\<open>Tracking stopped.\<close>
\<close>

theorem stop_timeout_counterexample:
  "tracking_thread in_session = Some 0 \<and> is_running in_session \<and>
   threads (stop_tracking xcount [] in_session) ! 0 = In_loop \<and>
   tracking_thread (stop_tracking xcount [] in_session) = None \<and>
   console (stop_tracking xcount [] in_session)
     = console in_session @ [Stdout ''Tracking stopped.'']"
  by (simp add: in_session_eq stop_tracking_def loop_steps_def print_def)

text \<open>
  Claim C5, amended. \<^verbatim>\<open>stop_tracking()\<close> on a tracker that holds a thread, the flag up,
  lowers the flag before it waits, so that every step of a loop during the wait finds it
  down; after the wait, whether the thread has ended or not, the tracker holds no thread,
  the threads are left as they are, and the one line the call prints is
  \<^verbatim>\<open>Tracking stopped.\<close>
\<close>

theorem stop_tracking_reports_the_same:
  assumes "tracking_thread w \<noteq> None" and "is_running w"
  shows "tracking_thread (stop_tracking V during w) = None \<and>
         \<not> is_running (stop_tracking V during w) \<and>
         \<not> is_running (loop_steps V during (w\<lparr> is_running := False \<rparr>)) \<and>
         threads (stop_tracking V during w)
           = threads (loop_steps V during (w\<lparr> is_running := False \<rparr>)) \<and>
         console (stop_tracking V during w)
           = console (loop_steps V during (w\<lparr> is_running := False \<rparr>))
               @ [Stdout ''Tracking stopped.'']"
  using assms loop_steps_frame [of V during "w\<lparr> is_running := False \<rparr>"]
  by (simp add: stop_tracking_def print_def)

theorem stop_tracking_reports_the_same_witness:
  "tracking_thread in_session \<noteq> None \<and> is_running in_session \<and>
   threads (stop_tracking xcount [] in_session) = [In_loop] \<and>
   console (stop_tracking xcount [] in_session)
     = [Stdout ''Mouse device grabbed exclusively.'', Stdout ''Tracking stopped.''] \<and>
   threads (stop_tracking xcount [(0, Yields (horizontal 1 2)), (0, Ungrab_returns)] in_session)
     = [Exited None] \<and>
   console (stop_tracking xcount [(0, Yields (horizontal 1 2)), (0, Ungrab_returns)] in_session)
     = [Stdout ''Mouse device grabbed exclusively.'', Stdout ''Mouse device released.'',
        Stdout ''Tracking stopped.'']"
proof -
  have a: "tracking_thread in_session \<noteq> None" "is_running in_session"
    by (simp_all add: in_session_eq)
  have b: "loop_steps xcount [] (in_session\<lparr> is_running := False \<rparr>)
             = in_session\<lparr> is_running := False \<rparr>"
    by (simp add: loop_steps_def)
  have c: "loop_steps xcount [(0, Yields (horizontal 1 2)), (0, Ungrab_returns)]
             (in_session\<lparr> is_running := False \<rparr>)
           = \<lparr> tracking_thread = Some 0, is_running = False, accumulated = 5,
               threads = [Exited None], device_calls = [(0, Grab), (0, Ungrab)],
               console = [Stdout ''Mouse device grabbed exclusively.'',
                          Stdout ''Mouse device released.''] \<rparr>"
    by (simp add: in_session_eq loop_steps_def loop_step_def set_pc_def print_def call_device_def)
  show ?thesis
    using stop_tracking_reports_the_same [OF a, of xcount "[]"]
      stop_tracking_reports_the_same [OF a, of xcount
        "[(0, Yields (horizontal 1 2)), (0, Ungrab_returns)]"] a
    unfolding b c by (simp add: in_session_eq)
qed

text \<open>
  Claim C8 says that \<^verbatim>\<open>start_tracking()\<close> fails, and spawns nothing, while a loop is
  running. The test is on \<^verbatim>\<open>_tracking_thread\<close>, which \<^verbatim>\<open>stop_tracking()\<close> clears also
  when the loop has outlived the wait: then \<^verbatim>\<open>start_tracking()\<close> prints nothing, raises the
  flag and spawns a second thread beside the first, which goes on adding events.
\<close>

theorem start_while_loop_running_counterexample:
  "threads outlived ! 0 = In_loop \<and>
   threads (start_tracking outlived) = [In_loop, At_grab] \<and>
   console (start_tracking outlived) = console outlived \<and>
   is_running (start_tracking outlived) \<and>
   threads (loop_step xcount (0, Yields (horizontal 7 3)) (start_tracking outlived))
     = [In_loop, At_grab] \<and>
   accumulated (loop_step xcount (0, Yields (horizontal 7 3)) (start_tracking outlived)) = 12"
  by (simp add: outlived_eq start_tracking_def loop_step_def xcount_simps xcount_on_event_def
      horizontal_def)

text \<open>
  Claim C8, amended. \<^verbatim>\<open>start_tracking()\<close> on a tracker that holds a thread prints
  \<^verbatim>\<open>Tracking is already in progress.\<close> and changes nothing else: no thread is spawned.
  On a tracker that holds none it raises the flag and spawns a thread, which the tracker
  then holds.
\<close>

theorem start_tracking_guard:
  "(tracking_thread w \<noteq> None \<longrightarrow>
      start_tracking w = print (Stdout ''Tracking is already in progress.'') w \<and>
      threads (start_tracking w) = threads w \<and>
      tracking_thread (start_tracking w) = tracking_thread w \<and>
      is_running (start_tracking w) = is_running w \<and>
      accumulated (start_tracking w) = accumulated w \<and>
      device_calls (start_tracking w) = device_calls w) \<and>
   (tracking_thread w = None \<longrightarrow>
      threads (start_tracking w) = threads w @ [At_grab] \<and>
      tracking_thread (start_tracking w) = Some (length (threads w)) \<and>
      is_running (start_tracking w) \<and>
      accumulated (start_tracking w) = accumulated w \<and>
      console (start_tracking w) = console w)"
  by (simp add: start_tracking_def print_def)

theorem start_tracking_guard_witness:
  "tracking_thread in_session \<noteq> None \<and>
   threads (start_tracking in_session) = [In_loop] \<and>
   console (start_tracking in_session)
     = [Stdout ''Mouse device grabbed exclusively.'', Stdout ''Tracking is already in progress.''] \<and>
   tracking_thread (init xcount) = None \<and>
   threads (start_tracking (init xcount)) = [At_grab] \<and>
   tracking_thread (start_tracking (init xcount)) = Some 0 \<and>
   is_running (start_tracking (init xcount))"
  using start_tracking_guard [of in_session] start_tracking_guard [of "init xcount"]
  by (simp add: in_session_eq init_def print_def)

section \<open>Two sessions\<close>

lemma after_session:
  "run V (session 0 start_time evs final) (init V) =
     \<lparr> tracking_thread = None, is_running = False,
       accumulated = fold (on_event V) evs (on_grabbed V start_time (initial V)),
       threads = [Exited None],
       device_calls = [(0, Grab), (0, Ungrab)],
       console = [Stdout (grabbed_message V), Stdout ''Mouse device released.'',
                  Stdout ''Tracking stopped.''] \<rparr>"
proof -
  have i: "tracking_thread (init V) = None" "length (threads (init V)) = 0"
    by (simp_all add: init_def)
  show ?thesis
    using run_session [OF i(1), of V start_time evs final]
    by (simp add: i init_def)
qed

lemma after_two_sessions:
  "accumulated (run V (session 0 t1 evs1 f1 @ session (Suc 0) t2 evs2 f2) (init V)) =
     fold (on_event V) evs2
       (on_grabbed V t2 (accumulated (run V (session 0 t1 evs1 f1) (init V))))"
proof -
  let ?w1 = "run V (session 0 t1 evs1 f1) (init V)"
  have w1: "tracking_thread ?w1 = None" "length (threads ?w1) = Suc 0"
    by (simp_all add: after_session)
  show ?thesis
    using run_session [OF w1(1), of V t2 evs2 f2]
    by (simp add: run_append w1(2))
qed

text \<open>
  Claim C3 says that the result of a second session depends on its own events only.
  \<^verbatim>\<open>start_tracking()\<close> resets nothing: with the same second session, the total is 8 after
  a first session that moved by 5 and 3 after one that did not move, and the path of the
  second session comes after the points of the first, from where the first ended.
\<close>

theorem sessions_leak_counterexample:
  "get_total_x_movement
     (run xcount (session 0 0 [horizontal 5 1] (horizontal 1 2)
                  @ session 1 10 [horizontal 3 11] (horizontal 1 12)) (init xcount)) = 8 \<and>
   get_total_x_movement
     (run xcount (session 0 0 [] (horizontal 1 2)
                  @ session 1 10 [horizontal 3 11] (horizontal 1 12)) (init xcount)) = 3 \<and>
   get_path
     (run tester (session 0 0 [horizontal 5 1] (horizontal 1 2)
                  @ session 1 10 [horizontal 3 11] (horizontal 1 12)) (init tester))
     = [(0, 0, 0), (1, 5, 0), (10, 5, 0), (11, 8, 0)] \<and>
   get_path
     (run tester (session 0 0 [] (horizontal 1 2)
                  @ session 1 10 [horizontal 3 11] (horizontal 1 12)) (init tester))
     = [(0, 0, 0), (10, 0, 0), (11, 3, 0)]"
  by (simp add: get_total_x_movement_def get_path_def after_two_sessions after_session
      xcount_simps tester_simps xcount_on_event_def path_on_event_def path_on_grabbed_def
      horizontal_def Let_def REL_X_def REL_Y_def)

text \<open>
  Claim C3, amended. After two sessions on one tracker, each ended by a loop that saw the
  flag down during the wait of \<^verbatim>\<open>stop_tracking()\<close>, the total is the total of the first
  plus the horizontal sum of the second; the path is the path of the first, then a start
  point at the position where the first ended, then the points of the second from there.
\<close>

theorem second_session_continues_first:
  "get_total_x_movement
     (run xcount (session 0 t1 evs1 f1 @ session 1 t2 evs2 f2) (init xcount))
     = get_total_x_movement (run xcount (session 0 t1 evs1 f1) (init xcount))
         + sum_x (relative evs2) \<and>
   get_path (run tester (session 0 t1 evs1 f1 @ session 1 t2 evs2 f2) (init tester))
     = get_path (run tester (session 0 t1 evs1 f1) (init tester))
         @ (t2, snd (last (get_path (run tester (session 0 t1 evs1 f1) (init tester)))))
         # trail (fst (snd (last (get_path (run tester (session 0 t1 evs1 f1) (init tester))))))
                 (snd (snd (last (get_path (run tester (session 0 t1 evs1 f1) (init tester))))))
                 (relative evs2)"
proof -
  let ?w1 = "run tester (session 0 t1 evs1 f1) (init tester)"
  have a: "get_total_x_movement
     (run xcount (session 0 t1 evs1 f1 @ session 1 t2 evs2 f2) (init xcount))
     = get_total_x_movement (run xcount (session 0 t1 evs1 f1) (init xcount))
         + sum_x (relative evs2)"
    by (simp add: get_total_x_movement_def after_two_sessions xcount_simps fold_xcount_on_event)
  have acc: "accumulated ?w1 = \<lparr> path_data = (t1, 0, 0) # trail 0 0 (relative evs1),
        current_x = sum_x (relative evs1), current_y = - sum_y (relative evs1) \<rparr>"
    by (simp add: after_session tester_simps fold_path_on_event path_on_grabbed_def)
  have pos: "snd (last (path_data (accumulated ?w1)))
      = (current_x (accumulated ?w1), current_y (accumulated ?w1))"
    unfolding acc using last_in_path [of t1 0 0 "relative evs1"] by simp
  have b: "path_data (accumulated (run tester (session 0 t1 evs1 f1 @ session 1 t2 evs2 f2) (init tester)))
      = path_data (accumulated ?w1)
          @ (t2, current_x (accumulated ?w1), current_y (accumulated ?w1))
          # trail (current_x (accumulated ?w1)) (current_y (accumulated ?w1)) (relative evs2)"
    by (simp add: after_two_sessions tester_simps fold_path_on_event path_on_grabbed_def)
  show ?thesis
    using a b pos by (simp add: get_path_def)
qed

theorem second_session_continues_first_witness:
  "get_total_x_movement
     (run xcount (session 0 0 [horizontal 5 1] (horizontal 1 2)
                  @ session 1 10 [horizontal 3 11] (horizontal 1 12)) (init xcount))
     = get_total_x_movement
         (run xcount (session 0 0 [horizontal 5 1] (horizontal 1 2)) (init xcount)) + 3"
  using second_session_continues_first
    [of 0 "[horizontal 5 1]" "horizontal 1 2" 10 "[horizontal 3 11]" "horizontal 1 12"]
  by (simp add: sum_x_def relative_def horizontal_def)

section \<open>What the enumeration skips\<close>

lemma scan_skips:
  assumes "\<forall>path \<in> set paths. \<forall>e. probe env path = Inl e \<longrightarrow> is_OSError (class_of e)"
  shows "scan env paths mice = Inr (mice @ List.map_filter (found env) paths)"
  using assms
proof (induction paths arbitrary: mice)
  case Nil
  show ?case by (simp add: List.map_filter_simps)
next
  case (Cons path paths)
  then show ?case
    by (cases "probe env path")
       (auto simp: List.map_filter_simps found_def split: option.splits)
qed

text \<open>
  Claim C7 says that \<^verbatim>\<open>find_all_mice()\<close> never raises. Of the exceptions of
  \<^verbatim>\<open>os.listdir\<close> only \<^verbatim>\<open>FileNotFoundError\<close> is caught: when \<^verbatim>\<open>/dev/input\<close> may not be
  listed, the \<^verbatim>\<open>PermissionError\<close> leaves the function.
\<close>

theorem find_all_mice_raises_counterexample:
  "find_all_mice unreadable = ([], Inl (Raise PermissionError ''Permission denied''))"
  by (simp add: find_all_mice_def unreadable_def)

text \<open>
  Claim C7, amended. When \<^verbatim>\<open>/dev/input\<close> does not exist, \<^verbatim>\<open>find_all_mice()\<close> prints a line
  on the standard error and returns the empty list; any other exception of the listing
  leaves the function. When the directory is listed and every exception
  of opening or querying one of its event devices is an \<^verbatim>\<open>OSError\<close>, the function prints
  nothing and returns, in order, the entries of the devices that opened and are mice: the
  others are skipped.
\<close>

theorem find_all_mice_skips_os_errors:
  "(listdir env = Inl e \<longrightarrow> is_FileNotFoundError (class_of e) \<longrightarrow>
      find_all_mice env = ([Stderr ''The /dev/input directory was not found.''], Inr [])) \<and>
   (listdir env = Inl e \<longrightarrow> \<not> is_FileNotFoundError (class_of e) \<longrightarrow>
      find_all_mice env = ([], Inl e)) \<and>
   (listdir env = Inr names \<longrightarrow>
      (\<forall>path \<in> set (device_paths names). \<forall>e'.
         probe env path = Inl e' \<longrightarrow> is_OSError (class_of e')) \<longrightarrow>
      find_all_mice env = ([], Inr (List.map_filter (found env) (device_paths names))))"
  by (auto simp: find_all_mice_def device_paths_def [symmetric] scan_skips)

theorem find_all_mice_skips_os_errors_witness:
  "listdir missing = Inl (Raise FileNotFoundError ''No such file or directory'') \<and>
   find_all_mice missing = ([Stderr ''The /dev/input directory was not found.''], Inr []) \<and>
   listdir unreadable = Inl (Raise PermissionError ''Permission denied'') \<and>
   find_all_mice unreadable = ([], Inl (Raise PermissionError ''Permission denied'')) \<and>
   listdir desk = Inr [''event0'', ''event1'', ''mice'', ''event2''] \<and>
   probe desk ''/dev/input/event1'' = Inl (Raise PermissionError ''Permission denied'') \<and>
   find_all_mice desk = ([], Inr [(''/dev/input/event0'', ''Mouse'')])"
proof -
  let ?names = "[''event0'', ''event1'', ''mice'', ''event2'']"
  have m: "listdir missing = Inl (Raise FileNotFoundError ''No such file or directory'')"
    by (simp add: missing_def)
  have u: "listdir unreadable = Inl (Raise PermissionError ''Permission denied'')"
    by (simp add: unreadable_def)
  have l: "listdir desk = Inr ?names"
    by (simp add: desk_def)
  have d: "device_paths ?names = [''/dev/input/event0'', ''/dev/input/event1'', ''/dev/input/event2'']"
    by (simp add: device_paths_def)
  have p0: "probe desk ''/dev/input/event0'' = Inr (Some (''/dev/input/event0'', ''Mouse''))"
    by (simp add: probe_def desk_def is_mouse_def EV_REL_def REL_X_def REL_Y_def)
  have p1: "probe desk ''/dev/input/event1'' = Inl (Raise PermissionError ''Permission denied'')"
    by (simp add: probe_def desk_def)
  have p2: "probe desk ''/dev/input/event2'' = Inr None"
    by (simp add: probe_def desk_def is_mouse_def EV_REL_def REL_X_def REL_Y_def)
  have h: "\<forall>path \<in> set (device_paths ?names). \<forall>e'.
         probe desk path = Inl e' \<longrightarrow> is_OSError (class_of e')"
    by (auto simp: d p0 p1 p2)
  have f: "List.map_filter (found desk) (device_paths ?names) = [(''/dev/input/event0'', ''Mouse'')]"
    by (simp add: d List.map_filter_simps found_def p0 p1 p2)
  show ?thesis
    using find_all_mice_skips_os_errors
        [of missing "Raise FileNotFoundError ''No such file or directory''" "[]"]
      find_all_mice_skips_os_errors
        [of unreadable "Raise PermissionError ''Permission denied''" "[]"]
      find_all_mice_skips_os_errors [of desk "Raise OSError []" ?names] m u l h p1
    by (simp add: f)
qed

end
